theory Spec2Isabelle
  imports Main "HOL-Library.Word" "HOL-Library.Multiset" "HOL-Library.Monad_Syntax"
    "HOL-Library.Char_ord" "HOL-Library.List_Lexorder"
begin

section \<open>Pipeline definitions\<close>

text \<open>
  Modelled from the spec: the struct \<open>pipeline_data\<close> is declared in a header that is not
  part of the sources at hand. It has a name, an optional parent name and twenty-nine
  optional fields, the ones \<open>parse_pipelines_from_json\<close> passes to \<open>fill_field\<close>. The loader
  only tests these fields for presence and copies them, so an enum value is carried as the
  token that names it, a texture binding or a shader source as its name, a stencil block
  as its list of tokens, and a float as its bit pattern.
\<close>

type_synonym token = string
type_synonym float = "32 word"
type_synonym uint32 = "32 word"

record pipeline_data =
  name :: string
  parent_name :: "string option"
  pass :: "string option"
  "defines" :: "string list option"
  states :: "token list option"
  vertex_shader :: "string option"
  fragment_shader :: "string option"
  geometry_shader :: "string option"
  tessellation_evaluation_shader :: "string option"
  tessellation_control_shader :: "string option"
  vertex_fields :: "token list option"
  front_face :: "token list option"
  back_face :: "token list option"
  input_textures :: "string list option"
  output_textures :: "string list option"
  depth_texture :: "string option"
  filters :: "string option"
  fallback :: "string option"
  depth_bias :: "float option"
  slope_scaled_depth_bias :: "float option"
  stencil_ref :: "uint32 option"
  stencil_read_mask :: "uint32 option"
  stencil_write_mask :: "uint32 option"
  msaa_support :: "token option"
  primitive_mode :: "token option"
  source_blend_factor :: "token option"
  destination_blend_factor :: "token option"
  alpha_src :: "token option"
  alpha_dst :: "token option"
  depth_func :: "token option"
  render_queue :: "token option"

text \<open>
  Modelled from the spec: the default constructor of \<open>pipeline_data\<close> (not in the sources at
  hand), which \<open>std::unordered_map::operator[]\<close> runs for a key that is not in the map. Every
  optional is empty and the name is the empty string.
\<close>

definition default_pipeline :: pipeline_data where
  "default_pipeline =
     \<lparr> name = [], parent_name = None, pass = None, defines = None, states = None,
       vertex_shader = None, fragment_shader = None, geometry_shader = None,
       tessellation_evaluation_shader = None, tessellation_control_shader = None,
       vertex_fields = None, front_face = None, back_face = None, input_textures = None,
       output_textures = None, depth_texture = None, filters = None, fallback = None,
       depth_bias = None, slope_scaled_depth_bias = None, stencil_ref = None,
       stencil_read_mask = None, stencil_write_mask = None, msaa_support = None,
       primitive_mode = None, source_blend_factor = None, destination_blend_factor = None,
       alpha_src = None, alpha_dst = None, depth_func = None, render_queue = None \<rparr>"

text \<open>
  Modelled from the spec: the constructor \<open>pipeline_data(name, parent, json_node)\<close> is not in
  the sources at hand. A pipeline's JSON node is carried as the optional fields it decodes
  to (a \<open>pipeline_data\<close> whose name and parent are not read); the constructor stores the name
  and the parent it is given beside them.
\<close>

type_synonym pipeline_json = pipeline_data

definition pipeline_data_ctor :: "string \<Rightarrow> string option \<Rightarrow> pipeline_json \<Rightarrow> pipeline_data" where
  "pipeline_data_ctor pipeline_state_name parent_state_name json_node =
     json_node\<lparr> name := pipeline_state_name, parent_name := parent_state_name \<rparr>"

subsection \<open>Maps of pipelines and the objects that hold them\<close>

text \<open>
  A \<open>std::unordered_map<std::string, pipeline_data>\<close> is a finite map. \<open>operator[]\<close> inserts a
  default-constructed value for a key that is absent and returns a reference to the value
  stored under the key: \<open>index_map\<close> is the map after the call and \<open>at_map\<close> reads the value the
  reference denotes.
\<close>

type_synonym pipeline_map = "string \<rightharpoonup> pipeline_data"

definition index_map :: "pipeline_map \<Rightarrow> string \<Rightarrow> pipeline_map" where
  "index_map m k = (case m k of None \<Rightarrow> m(k \<mapsto> default_pipeline) | Some d \<Rightarrow> m)"

definition at_map :: "pipeline_map \<Rightarrow> string \<Rightarrow> pipeline_data" where
  "at_map m k = (case m k of None \<Rightarrow> default_pipeline | Some d \<Rightarrow> d)"

text \<open>
  The map objects that are alive, in the order of their construction: a reference to a map
  is the index of its object. A by-value parameter is a new object at the end, gone when
  the call returns.
\<close>

type_synonym store = "pipeline_map list"

text \<open>
  A pointer to a member \<open>optional<Type> pipeline_data::*\<close>, and the accessor lambda
  \<open>fill_field\<close> builds from it, which returns a reference to the member: the pair of reading
  the member and assigning to it.
\<close>

type_synonym 'a member_ptr =
  "(pipeline_data \<Rightarrow> 'a option) \<times> ('a option \<Rightarrow> pipeline_data \<Rightarrow> pipeline_data)"

section \<open>Filling a field from the ancestors\<close>

text \<open>
  The \<open>while\<close> loop of \<open>fill_in_pipeline_state_field\<close>, on the contents of the map
  \<open>all_pipelines\<close> refers to. \<open>us\<close> and \<open>cur_state\<close> are both references to the value stored
  under \<open>our_name\<close> (\<open>auto &cur_state = us\<close> binds a second reference to the same value), so
  \<open>cur_state = all_pipelines[parent]\<close> copies the parent's whole definition over that value,
  and the assignment to the field of \<open>us\<close> writes into the same value. A loop that does not
  stop has the value \<open>None\<close>.
\<close>

partial_function (option) fill_loop ::
  "'a member_ptr \<Rightarrow> string \<Rightarrow> pipeline_map \<Rightarrow> bool \<Rightarrow> pipeline_map option" where
  "fill_loop get_field_from_pipeline our_name all_pipelines value_found =
     (if value_found then Some all_pipelines
      else
        (case parent_name (at_map all_pipelines our_name) of
           None \<Rightarrow> Some all_pipelines
         | Some parent \<Rightarrow>
             (let all1 = index_map all_pipelines parent;
                  all2 = all1(our_name \<mapsto> at_map all1 parent)
              in (case fst get_field_from_pipeline (at_map all2 our_name) of
                    None \<Rightarrow> fill_loop get_field_from_pipeline our_name all2 False
                  | Some field_value \<Rightarrow>
                      fill_loop get_field_from_pipeline our_name
                        (all2(our_name \<mapsto>
                           snd get_field_from_pipeline (Some field_value) (at_map all2 our_name)))
                        True))))"

text \<open>
  \<open>fill_in_pipeline_state_field\<close> takes the map by reference: it works on the object at
  index \<open>all_pipelines\<close> of the store and leaves its result there.
\<close>

definition fill_in_pipeline_state_field ::
  "string \<Rightarrow> nat \<Rightarrow> 'a member_ptr \<Rightarrow> store \<Rightarrow> store option" where
  "fill_in_pipeline_state_field our_name all_pipelines get_field_from_pipeline s =
     (let m = index_map (s ! all_pipelines) our_name;
          value_found = (fst get_field_from_pipeline (at_map m our_name) \<noteq> None)
      in map_option (\<lambda>m'. s[all_pipelines := m'])
           (fill_loop get_field_from_pipeline our_name m value_found))"

text \<open>
  \<open>fill_field\<close> takes the map by value: the parameter \<open>pipelines\<close> is a new object,
  copy-constructed from the argument (the object at index \<open>arg\<close>), and destroyed when the
  call returns.
\<close>

definition fill_field :: "string \<Rightarrow> nat \<Rightarrow> 'a member_ptr \<Rightarrow> store \<Rightarrow> store option" where
  "fill_field name' arg ptr s =
     (let pipelines = length s;
          s1 = s @ [s ! arg]
      in map_option butlast (fill_in_pipeline_state_field name' pipelines ptr s1))"

subsection \<open>The member pointers\<close>

text \<open>
  One pointer for each member \<open>parse_pipelines_from_json\<close> fills: \<open>&pipeline_data::pass\<close> and
  the twenty-eight others.
\<close>

definition ptr_pass :: "string member_ptr" where
  "ptr_pass = (pass, \<lambda>v d. d\<lparr> pass := v \<rparr>)"

definition ptr_defines :: "(string list) member_ptr" where
  "ptr_defines = (defines, \<lambda>v d. d\<lparr> defines := v \<rparr>)"

definition ptr_states :: "(token list) member_ptr" where
  "ptr_states = (states, \<lambda>v d. d\<lparr> states := v \<rparr>)"

definition ptr_vertex_shader :: "string member_ptr" where
  "ptr_vertex_shader = (vertex_shader, \<lambda>v d. d\<lparr> vertex_shader := v \<rparr>)"

definition ptr_fragment_shader :: "string member_ptr" where
  "ptr_fragment_shader = (fragment_shader, \<lambda>v d. d\<lparr> fragment_shader := v \<rparr>)"

definition ptr_geometry_shader :: "string member_ptr" where
  "ptr_geometry_shader = (geometry_shader, \<lambda>v d. d\<lparr> geometry_shader := v \<rparr>)"

definition ptr_tessellation_evaluation_shader :: "string member_ptr" where
  "ptr_tessellation_evaluation_shader = (tessellation_evaluation_shader, \<lambda>v d. d\<lparr> tessellation_evaluation_shader := v \<rparr>)"

definition ptr_tessellation_control_shader :: "string member_ptr" where
  "ptr_tessellation_control_shader = (tessellation_control_shader, \<lambda>v d. d\<lparr> tessellation_control_shader := v \<rparr>)"

definition ptr_vertex_fields :: "(token list) member_ptr" where
  "ptr_vertex_fields = (vertex_fields, \<lambda>v d. d\<lparr> vertex_fields := v \<rparr>)"

definition ptr_front_face :: "(token list) member_ptr" where
  "ptr_front_face = (front_face, \<lambda>v d. d\<lparr> front_face := v \<rparr>)"

definition ptr_back_face :: "(token list) member_ptr" where
  "ptr_back_face = (back_face, \<lambda>v d. d\<lparr> back_face := v \<rparr>)"

definition ptr_input_textures :: "(string list) member_ptr" where
  "ptr_input_textures = (input_textures, \<lambda>v d. d\<lparr> input_textures := v \<rparr>)"

definition ptr_output_textures :: "(string list) member_ptr" where
  "ptr_output_textures = (output_textures, \<lambda>v d. d\<lparr> output_textures := v \<rparr>)"

definition ptr_depth_texture :: "string member_ptr" where
  "ptr_depth_texture = (depth_texture, \<lambda>v d. d\<lparr> depth_texture := v \<rparr>)"

definition ptr_filters :: "string member_ptr" where
  "ptr_filters = (filters, \<lambda>v d. d\<lparr> filters := v \<rparr>)"

definition ptr_fallback :: "string member_ptr" where
  "ptr_fallback = (fallback, \<lambda>v d. d\<lparr> fallback := v \<rparr>)"

definition ptr_depth_bias :: "float member_ptr" where
  "ptr_depth_bias = (depth_bias, \<lambda>v d. d\<lparr> depth_bias := v \<rparr>)"

definition ptr_slope_scaled_depth_bias :: "float member_ptr" where
  "ptr_slope_scaled_depth_bias = (slope_scaled_depth_bias, \<lambda>v d. d\<lparr> slope_scaled_depth_bias := v \<rparr>)"

definition ptr_stencil_ref :: "uint32 member_ptr" where
  "ptr_stencil_ref = (stencil_ref, \<lambda>v d. d\<lparr> stencil_ref := v \<rparr>)"

definition ptr_stencil_read_mask :: "uint32 member_ptr" where
  "ptr_stencil_read_mask = (stencil_read_mask, \<lambda>v d. d\<lparr> stencil_read_mask := v \<rparr>)"

definition ptr_stencil_write_mask :: "uint32 member_ptr" where
  "ptr_stencil_write_mask = (stencil_write_mask, \<lambda>v d. d\<lparr> stencil_write_mask := v \<rparr>)"

definition ptr_msaa_support :: "token member_ptr" where
  "ptr_msaa_support = (msaa_support, \<lambda>v d. d\<lparr> msaa_support := v \<rparr>)"

definition ptr_primitive_mode :: "token member_ptr" where
  "ptr_primitive_mode = (primitive_mode, \<lambda>v d. d\<lparr> primitive_mode := v \<rparr>)"

definition ptr_source_blend_factor :: "token member_ptr" where
  "ptr_source_blend_factor = (source_blend_factor, \<lambda>v d. d\<lparr> source_blend_factor := v \<rparr>)"

definition ptr_destination_blend_factor :: "token member_ptr" where
  "ptr_destination_blend_factor = (destination_blend_factor, \<lambda>v d. d\<lparr> destination_blend_factor := v \<rparr>)"

definition ptr_alpha_src :: "token member_ptr" where
  "ptr_alpha_src = (alpha_src, \<lambda>v d. d\<lparr> alpha_src := v \<rparr>)"

definition ptr_alpha_dst :: "token member_ptr" where
  "ptr_alpha_dst = (alpha_dst, \<lambda>v d. d\<lparr> alpha_dst := v \<rparr>)"

definition ptr_depth_func :: "token member_ptr" where
  "ptr_depth_func = (depth_func, \<lambda>v d. d\<lparr> depth_func := v \<rparr>)"

definition ptr_render_queue :: "token member_ptr" where
  "ptr_render_queue = (render_queue, \<lambda>v d. d\<lparr> render_queue := v \<rparr>)"

section \<open>Parsing the pipelines document\<close>

text \<open>
  \<open>std::string::find(':')\<close>: the position of the first colon, \<open>None\<close> for \<open>npos\<close>.
\<close>

fun find_char :: "char \<Rightarrow> string \<Rightarrow> nat option" where
  "find_char c [] = None"
| "find_char c (x # xs) = (if x = c then Some 0 else map_option Suc (find_char c xs))"

text \<open>
  Lines 113 to 120: the name and the parent that a key of the document stands for.
  \<open>substr(colon_pos + 1)\<close> is the rest of the key and \<open>substr(0, colon_pos)\<close> its first
  \<open>colon_pos\<close> characters.
\<close>

definition split_key :: "string \<Rightarrow> string \<times> string option" where
  "split_key pipeline_state_name =
     (case find_char CHR '':'' pipeline_state_name of
        None \<Rightarrow> (pipeline_state_name, None)
      | Some colon_pos \<Rightarrow>
          (take colon_pos pipeline_state_name, Some (drop (colon_pos + 1) pipeline_state_name)))"

text \<open>
  The body of the first loop: \<open>definition_map[pipeline_state_name] = mat\<close>. The document is
  the list of its keys and nodes, in the order the iterator visits them.
\<close>

definition insert_definition :: "pipeline_map \<Rightarrow> string \<times> pipeline_json \<Rightarrow> pipeline_map" where
  "insert_definition definition_map item =
     (let (pipeline_state_name, parent_state_name) = split_key (fst item);
          mat = pipeline_data_ctor pipeline_state_name parent_state_name (snd item)
      in definition_map(pipeline_state_name \<mapsto> mat))"

definition parse_definitions :: "(string \<times> pipeline_json) list \<Rightarrow> pipeline_map" where
  "parse_definitions pipelines_json = foldl insert_definition Map.empty pipelines_json"

text \<open>
  The body of the second loop, for the item with key \<open>key\<close>. \<open>definition_map\<close> is the index of
  the map object in the store, \<open>cur_state\<close> is a reference to the item's value in it, read
  where the code reads it. Each call of \<open>fill_field\<close> has \<open>definition_map\<close> as its argument.
\<close>

definition resolve_item ::
  "nat \<Rightarrow> string \<Rightarrow> store \<times> pipeline_data list \<Rightarrow> (store \<times> pipeline_data list) option" where
  "resolve_item definition_map key st =
     (let s = fst st; pipelines = snd st in
      if parent_name (at_map (s ! definition_map) key) = None
      then Some (s, pipelines @ [at_map (s ! definition_map) key])
      else do {
        s \<leftarrow> fill_field key definition_map ptr_pass s;
        s \<leftarrow> fill_field key definition_map ptr_defines s;
        s \<leftarrow> fill_field key definition_map ptr_states s;
        s \<leftarrow> fill_field key definition_map ptr_vertex_shader s;
        s \<leftarrow> fill_field key definition_map ptr_fragment_shader s;
        s \<leftarrow> fill_field key definition_map ptr_geometry_shader s;
        s \<leftarrow> fill_field key definition_map ptr_tessellation_evaluation_shader s;
        s \<leftarrow> fill_field key definition_map ptr_tessellation_control_shader s;
        s \<leftarrow> fill_field key definition_map ptr_vertex_fields s;
        s \<leftarrow> fill_field key definition_map ptr_front_face s;
        s \<leftarrow> fill_field key definition_map ptr_back_face s;
        s \<leftarrow> fill_field key definition_map ptr_input_textures s;
        s \<leftarrow> fill_field key definition_map ptr_output_textures s;
        s \<leftarrow> fill_field key definition_map ptr_depth_texture s;
        s \<leftarrow> fill_field key definition_map ptr_filters s;
        s \<leftarrow> fill_field key definition_map ptr_fallback s;
        s \<leftarrow> fill_field key definition_map ptr_depth_bias s;
        s \<leftarrow> fill_field key definition_map ptr_slope_scaled_depth_bias s;
        s \<leftarrow> fill_field key definition_map ptr_stencil_ref s;
        s \<leftarrow> fill_field key definition_map ptr_stencil_read_mask s;
        s \<leftarrow> fill_field key definition_map ptr_stencil_write_mask s;
        s \<leftarrow> fill_field key definition_map ptr_msaa_support s;
        s \<leftarrow> fill_field key definition_map ptr_primitive_mode s;
        s \<leftarrow> fill_field key definition_map ptr_source_blend_factor s;
        s \<leftarrow> fill_field key definition_map ptr_destination_blend_factor s;
        s \<leftarrow> fill_field key definition_map ptr_alpha_src s;
        s \<leftarrow> fill_field key definition_map ptr_alpha_dst s;
        s \<leftarrow> fill_field key definition_map ptr_depth_func s;
        s \<leftarrow> fill_field key definition_map ptr_render_queue s;
        Some (s, pipelines @ [at_map (s ! definition_map) key])
      })"

text \<open>
  The second loop. The order in which a \<open>std::unordered_map\<close> is iterated is not specified:
  \<open>order\<close> is the sequence of keys the iteration visits.
\<close>

fun resolve_loop ::
  "nat \<Rightarrow> string list \<Rightarrow> store \<times> pipeline_data list \<Rightarrow> (store \<times> pipeline_data list) option" where
  "resolve_loop definition_map [] st = Some st"
| "resolve_loop definition_map (key # keys) st =
     (case resolve_item definition_map key st of
        None \<Rightarrow> None
      | Some st' \<Rightarrow> resolve_loop definition_map keys st')"

definition parse_pipelines_from_json ::
  "string list \<Rightarrow> (string \<times> pipeline_json) list \<Rightarrow> pipeline_data list option" where
  "parse_pipelines_from_json order pipelines_json =
     (let definition_map = parse_definitions pipelines_json
      in map_option snd (resolve_loop 0 order ([definition_map], [])))"

section \<open>Bucketing the pipelines by pass\<close>

text \<open>
  Modelled from the spec: \<open>load_pipelines_from_folder\<close> is declared in \<open>loaders.h\<close> and defined
  outside the sources at hand; \<open>load_shaderpack\<close> stores its result as \<open>pipelines_by_pass\<close>.
  The spec has the pipeline documents of the folder merged into one mapping and resolved,
  each resolved pipeline put in the bucket of its \<open>pass\<close> field, and each bucket in the
  sorted order of the pipeline names. A pipeline whose \<open>pass\<close> is unset is in no bucket.
  \<open>pipelines_json\<close> is the merged document of the folder.
\<close>

definition bucket_by_pass :: "pipeline_data list \<Rightarrow> (string \<rightharpoonup> pipeline_data list)" where
  "bucket_by_pass pipelines =
     foldl (\<lambda>buckets d.
              case pass d of
                None \<Rightarrow> buckets
              | Some p \<Rightarrow>
                  buckets(p \<mapsto> insort_key name d (case buckets p of None \<Rightarrow> [] | Some b \<Rightarrow> b)))
       Map.empty pipelines"

definition load_pipelines_from_folder ::
  "string list \<Rightarrow> (string \<times> pipeline_json) list \<Rightarrow> (string \<rightharpoonup> pipeline_data list) option" where
  "load_pipelines_from_folder order pipelines_json =
     map_option bucket_by_pass (parse_pipelines_from_json order pipelines_json)"

section \<open>Loading a shaderpack\<close>

text \<open>
  Of the lines the code logs, the model keeps the ones at level \<open>ERROR\<close>, with their text.
\<close>

datatype level = ERROR

type_synonym log = "(level \<times> string) list"

datatype exception = runtime_error string

text \<open>
  Modelled from the spec: the struct \<open>shaderpack_data\<close> is declared in a header that is not
  in the sources at hand. It holds the four mappings of the spec's Shaderpack; the types of
  a pass, a texture and a material are parameters. \<open>shaderpack_data{}\<close> has the four
  mappings empty.
\<close>

record ('p, 't, 'm) shaderpack_data =
  pipelines_by_pass :: "string \<rightharpoonup> pipeline_data list"
  passes :: "string \<rightharpoonup> 'p"
  dynamic_textures :: "string \<rightharpoonup> 't"
  materials :: "string \<rightharpoonup> 'm"

definition empty_shaderpack :: "('p, 't, 'm) shaderpack_data" where
  "empty_shaderpack =
     \<lparr> pipelines_by_pass = Map.empty, passes = Map.empty, dynamic_textures = Map.empty,
       materials = Map.empty \<rparr>"

text \<open>
  What the functions that read the disk return, none of them in the sources at hand:
  whether the name is a zip file, the merged pipelines document of a folder, and the
  passes, textures and materials the three other folder loaders return for it.
\<close>

record ('p, 't, 'm) disk =
  is_zip_file :: "string \<Rightarrow> bool"
  pipelines_document :: "string \<Rightarrow> (string \<times> pipeline_json) list"
  load_passes_from_folder :: "string \<Rightarrow> (string \<rightharpoonup> 'p)"
  load_texture_definitions_from_folder :: "string \<Rightarrow> (string \<rightharpoonup> 't)"
  load_materials_from_folder :: "string \<Rightarrow> (string \<rightharpoonup> 'm)"

text \<open>
  \<open>load_sources_from_zip_file\<close> throws whatever it is given (a shader definition is carried
  as its source text).
\<close>

definition load_sources_from_zip_file ::
  "string \<Rightarrow> string list \<Rightarrow> exception + (string \<rightharpoonup> string)" where
  "load_sources_from_zip_file shaderpack_name shader_names =
     Inl (runtime_error ''Zipped shaderpacks not yet supported'')"

definition no_passes_message :: "string \<Rightarrow> string" where
  "no_passes_message shaderpack_name =
     ''Shaderpack '' @ shaderpack_name @ '' doesn't define any passes, it can't render anything''"

definition no_pipelines_message :: "string \<Rightarrow> string" where
  "no_pipelines_message shaderpack_name =
     ''Shaderpack '' @ shaderpack_name @ '' doesn't define any pipelines, it can't render anything''"

definition no_materials_message :: "string \<Rightarrow> string" where
  "no_materials_message shaderpack_name =
     ''Shaderpack '' @ shaderpack_name @ '' doesn't define any materials, it can't render anything''"

text \<open>
  \<open>load_shaderpack\<close>: \<open>None\<close> when it does not return, \<open>Inl\<close> the exception that leaves it,
  \<open>Inr\<close> the error lines it logged and the pack it returns. \<open>order\<close> is the iteration order
  of the pipeline map, as for \<open>parse_pipelines_from_json\<close>.
\<close>

definition load_shaderpack ::
  "string list \<Rightarrow> ('p, 't, 'm) disk \<Rightarrow> string \<Rightarrow>
   (exception + log \<times> ('p, 't, 'm) shaderpack_data) option" where
  "load_shaderpack order dsk shaderpack_name =
     (let pack = empty_shaderpack in
      if is_zip_file dsk shaderpack_name then
        (case load_sources_from_zip_file shaderpack_name [] of
           Inl e \<Rightarrow> Some (Inl e)
         | Inr sources \<Rightarrow> Some (Inr ([], empty_shaderpack)))
      else
        (let shaderpack_directory = ''shaderpacks/'' @ shaderpack_name in
         case load_pipelines_from_folder order (pipelines_document dsk shaderpack_directory) of
           None \<Rightarrow> None
         | Some by_pass \<Rightarrow>
             (let pack = pack\<lparr> pipelines_by_pass := by_pass \<rparr>;
                  pack = pack\<lparr> passes := load_passes_from_folder dsk shaderpack_directory \<rparr>;
                  pack = pack\<lparr> dynamic_textures :=
                           load_texture_definitions_from_folder dsk shaderpack_directory \<rparr>;
                  pack = pack\<lparr> materials := load_materials_from_folder dsk shaderpack_directory \<rparr>;
                  log1 = (if passes pack = Map.empty
                          then [(ERROR, no_passes_message shaderpack_name)] else []);
                  log2 = (if pipelines_by_pass pack = Map.empty
                          then [(ERROR, no_pipelines_message shaderpack_name)] else []);
                  log3 = (if materials pack = Map.empty
                          then [(ERROR, no_materials_message shaderpack_name)] else [])
              in Some (Inr (log1 @ log2 @ log3, pack)))))"

section \<open>Parsing the textures document\<close>

text \<open>
  The documents the loader reads, as \<open>nlohmann::json\<close> values; \<open>json_empty\<close> is its \<open>empty()\<close>:
  true of null and of an array or object with no element.
\<close>

datatype json =
  JNull | JBool bool | JNumber int | JString string
  | JArray "json list" | JObject "(string \<times> json) list"

fun json_empty :: "json \<Rightarrow> bool" where
  "json_empty JNull = True"
| "json_empty (JArray xs) = (xs = [])"
| "json_empty (JObject kvs) = (kvs = [])"
| "json_empty j = False"

text \<open>
  \<open>parse_textures_from_json\<close>, over the elements the range-for visits. The type
  \<open>texture_resource\<close> is not in the sources at hand: its constructor from a JSON node, which
  either throws a \<open>std::exception\<close> (\<open>Inl\<close> its \<open>what()\<close>) or builds a texture, and its member
  \<open>name\<close> are parameters.
\<close>

definition parse_texture ::
  "(json \<Rightarrow> string + 't) \<Rightarrow> ('t \<Rightarrow> string) \<Rightarrow> log \<times> (string \<rightharpoonup> 't) \<Rightarrow> json \<Rightarrow>
   log \<times> (string \<rightharpoonup> 't)" where
  "parse_texture texture_resource texture_name st texture_json =
     (case texture_resource texture_json of
        Inr texture \<Rightarrow> (fst st, (snd st)(texture_name texture \<mapsto> texture))
      | Inl what \<Rightarrow>
          (fst st @ [(ERROR, ''Could not parse texture description. Reason: '' @ what)], snd st))"

definition parse_textures_from_json ::
  "(json \<Rightarrow> string + 't) \<Rightarrow> ('t \<Rightarrow> string) \<Rightarrow> json list \<Rightarrow> log \<times> (string \<rightharpoonup> 't)" where
  "parse_textures_from_json texture_resource texture_name json =
     foldl (parse_texture texture_resource texture_name) ([], Map.empty) json"

section \<open>The default passes\<close>

text \<open>
  The files that can be opened, each with the document \<open>load_json_from_stream\<close> (not in the
  sources at hand) reads from it.
\<close>

type_synonym file_system = "string \<rightharpoonup> json"

text \<open>
  The two accessors. The function-local static is passed in and returned: the result is
  the error lines logged and the value of the static after the call, which is the value
  the returned reference denotes.
\<close>

definition get_default_bedrock_passes :: "file_system \<Rightarrow> json \<Rightarrow> log \<times> json" where
  "get_default_bedrock_passes fs default_bedrock_passes =
     (if json_empty default_bedrock_passes then
        (case fs ''config/default/bedrock_passes.json'' of
           Some doc \<Rightarrow> ([], doc)
         | None \<Rightarrow>
             ([(ERROR, ''Could not open config/default/bedrock_passes.json. Please download it from https://raw.githubusercontent.com/NovaMods/nova-renderer/master/jars/config/shaders.json'')],
              default_bedrock_passes))
      else ([], default_bedrock_passes))"

definition get_default_optifine_passes :: "file_system \<Rightarrow> json \<Rightarrow> log \<times> json" where
  "get_default_optifine_passes fs default_optifine_passes =
     (if json_empty default_optifine_passes then
        (case fs ''config/default/bedrock_passes.json'' of
           Some doc \<Rightarrow> ([], doc)
         | None \<Rightarrow>
             ([(ERROR, ''Could not open config/default/bedrock_passes.json. Please download it from https://raw.githubusercontent.com/NovaMods/nova-renderer/master/jars/config/shaders.json'')],
              default_optifine_passes))
      else ([], default_optifine_passes))"

section \<open>Notions the properties are stated with\<close>

text \<open>
  The parent relation of a map: \<open>(p, k)\<close> when the pipeline stored under \<open>k\<close> names \<open>p\<close> as its
  parent. A parent chain with a cycle is a cycle of this relation.
\<close>

definition parent_rel :: "pipeline_map \<Rightarrow> (string \<times> string) set" where
  "parent_rel m = {(p, k). \<exists>d. m k = Some d \<and> parent_name d = Some p}"

text \<open>
  A set of keys that the parent references never leave and on which the field is unset: a
  walk that enters it finds no value and no end.
\<close>

definition closed_unset :: "'a member_ptr \<Rightarrow> string set \<Rightarrow> pipeline_map \<Rightarrow> bool" where
  "closed_unset g S m =
     (\<forall>k\<in>S. \<exists>d p. m k = Some d \<and> fst g d = None \<and> parent_name d = Some p \<and> p \<in> S)"

text \<open>
  Every pipeline but the one being filled has its parent below it in the relation \<open>r\<close>.
\<close>

definition others_ranked :: "(string \<times> string) set \<Rightarrow> string \<Rightarrow> pipeline_map \<Rightarrow> bool" where
  "others_ranked r our m =
     (\<forall>k d p. k \<noteq> our \<longrightarrow> m k = Some d \<longrightarrow> parent_name d = Some p \<longrightarrow> (p, k) \<in> r)"

text \<open>
  The second loop's body returns for the item \<open>key\<close>.
\<close>

definition item_returns :: "nat \<Rightarrow> string \<Rightarrow> store \<Rightarrow> bool" where
  "item_returns definition_map key s = (resolve_item definition_map key (s, []) \<noteq> None)"

text \<open>
  The pipelines document of the spec's first end-to-end scenario, and the nodes of its two
  entries.
\<close>

definition child_node :: pipeline_json where
  "child_node = default_pipeline\<lparr> vertex_shader := Some ''v.glsl'' \<rparr>"

definition parent_node :: pipeline_json where
  "parent_node =
     default_pipeline\<lparr> fragment_shader := Some ''f.glsl'', pass := Some ''main'',
       states := Some [], vertex_fields := Some [], depth_func := Some ''less'',
       primitive_mode := Some ''triangle_list'', render_queue := Some ''opaque'',
       msaa_support := Some ''none'' \<rparr>"

definition minimal_pipelines :: "(string \<times> pipeline_json) list" where
  "minimal_pipelines = [(''child:parent'', child_node), (''parent'', parent_node)]"

text \<open>
  The pipeline stored under \<open>k\<close> names a parent that is not a key of the map.
\<close>

definition dangling_parent :: "pipeline_map \<Rightarrow> string \<Rightarrow> bool" where
  "dangling_parent m k =
     (case m k of
        None \<Rightarrow> False
      | Some d \<Rightarrow> (case parent_name d of None \<Rightarrow> False | Some p \<Rightarrow> m p = None))"

text \<open>
  A disk on which the two backing files of the defaults hold different documents.
\<close>

definition two_files :: file_system where
  "two_files =
     [''config/default/bedrock_passes.json'' \<mapsto> JArray [JString ''bedrock''],
      ''config/default/optifine_passes.json'' \<mapsto> JArray [JString ''optifine'']]"

text \<open>
  A folder with two pipelines of the pass \<open>main\<close>, no passes, no textures and one material.
\<close>

definition main_node :: pipeline_json where
  "main_node = default_pipeline\<lparr> pass := Some ''main'' \<rparr>"

definition two_pipelines_disk :: "(unit, unit, unit) disk" where
  "two_pipelines_disk =
     \<lparr> is_zip_file = (\<lambda>shaderpack_name. False),
       pipelines_document = (\<lambda>directory. [(''b'', main_node), (''a'', main_node)]),
       load_passes_from_folder = (\<lambda>directory. Map.empty),
       load_texture_definitions_from_folder = (\<lambda>directory. Map.empty),
       load_materials_from_folder = (\<lambda>directory. [''m'' \<mapsto> ()]) \<rparr>"

text \<open>
  The textures whose construction succeeds, and the reasons of the ones whose construction
  throws, each in the order of the document.
\<close>

definition constructed :: "(json \<Rightarrow> string + 't) \<Rightarrow> json list \<Rightarrow> 't list" where
  "constructed texture_resource json =
     List.map_filter (\<lambda>j. case texture_resource j of Inl what \<Rightarrow> None | Inr t \<Rightarrow> Some t) json"

definition failures :: "(json \<Rightarrow> string + 't) \<Rightarrow> json list \<Rightarrow> string list" where
  "failures texture_resource json =
     List.map_filter (\<lambda>j. case texture_resource j of Inl what \<Rightarrow> Some what | Inr t \<Rightarrow> None) json"

text \<open>
  A document with a pipeline whose parent is not in it, beside a pipeline without parent.
\<close>

definition dangling_pipelines :: "(string \<times> pipeline_json) list" where
  "dangling_pipelines = [(''child:missing'', child_node), (''parent'', parent_node)]"

section \<open>Properties of the field filling\<close>

lemma default_parent [simp]: "parent_name default_pipeline = None"
  by (simp add: default_pipeline_def)

lemma at_map_Some [simp]: "m k = Some d \<Longrightarrow> at_map m k = d"
  by (simp add: at_map_def)

lemma at_map_None [simp]: "m k = None \<Longrightarrow> at_map m k = default_pipeline"
  by (simp add: at_map_def)

lemma index_map_Some [simp]: "m k = Some d \<Longrightarrow> index_map m k = m"
  by (simp add: index_map_def)

lemma index_map_None [simp]: "m k = None \<Longrightarrow> index_map m k = m(k \<mapsto> default_pipeline)"
  by (simp add: index_map_def)

lemma at_map_upd_same [simp]: "at_map (m(k \<mapsto> d)) k = d"
  by (simp add: at_map_def)

lemma fill_loop_found [simp]: "fill_loop g our m True = Some m"
  by (subst fill_loop.simps) simp

lemma fill_loop_no_parent:
  "parent_name (at_map m our) = None \<Longrightarrow> fill_loop g our m False = Some m"
  by (subst fill_loop.simps) simp

lemma fill_loop_cycle:
  assumes "fill_loop g our m vf = Some y"
  shows "\<not> (\<not> vf \<and> our \<in> S \<and> closed_unset g S m)"
proof (rule fill_loop.raw_induct[where P = "\<lambda>g our m vf y. \<not> (\<not> vf \<and> our \<in> S \<and> closed_unset g S m)", OF _ assms])
  fix f :: "'a member_ptr \<Rightarrow> string \<Rightarrow> pipeline_map \<Rightarrow> bool \<Rightarrow> pipeline_map option"
  fix g :: "'a member_ptr" and our m vf y
  assume IH: "\<And>g our m vf y. f g our m vf = Some y \<Longrightarrow> \<not> (\<not> vf \<and> our \<in> S \<and> closed_unset g S m)"
  assume prems: "(if vf then Some m
      else case parent_name (at_map m our) of
           None \<Rightarrow> Some m
           | Some parent \<Rightarrow>
               let all1 = index_map m parent;
                   all2 = all1(our \<mapsto> at_map all1 parent)
               in case fst g (at_map all2 our) of
                  None \<Rightarrow> f g our all2 False
                  | Some field_value \<Rightarrow>
                      f g our (all2(our \<mapsto> snd g (Some field_value) (at_map all2 our))) True) = Some y"
  show "\<not> (\<not> vf \<and> our \<in> S \<and> closed_unset g S m)"
  proof
    assume a: "\<not> vf \<and> our \<in> S \<and> closed_unset g S m"
    then obtain d p where d: "m our = Some d" "fst g d = None" "parent_name d = Some p" "p \<in> S"
      unfolding closed_unset_def by blast
    from a d(4) obtain d' p' where d': "m p = Some d'" "fst g d' = None" "parent_name d' = Some p'" "p' \<in> S"
      unfolding closed_unset_def by blast
    have c: "closed_unset g S (m(our \<mapsto> d'))"
      using a d' unfolding closed_unset_def by auto
    from prems a d d' have "f g our (m(our \<mapsto> d')) False = Some y"
      by (simp add: Let_def)
    from IH[OF this] a c show False by simp
  qed
qed

lemma fill_loop_diverges:
  "our \<in> S \<Longrightarrow> closed_unset g S m \<Longrightarrow> fill_loop g our m False = None"
  using fill_loop_cycle[of g our m False _ S] by (cases "fill_loop g our m False") auto

lemma fill_loop_returns_aux:
  assumes wf: "wf r"
  shows "\<forall>m. others_ranked r our m \<longrightarrow> parent_name (at_map m our) = Some x \<longrightarrow> (x, our) \<in> r\<^sup>+
           \<longrightarrow> (\<exists>y. fill_loop g our m False = Some y)"
proof (induction x rule: wf_induct_rule[OF wf_trancl[OF wf]])
  case (1 x)
  show ?case
  proof (intro allI impI)
    fix m
    assume o: "others_ranked r our m" and px: "parent_name (at_map m our) = Some x"
      and xr: "(x, our) \<in> r\<^sup>+"
    have ne: "x \<noteq> our" using xr wf_trancl[OF wf] by auto
    define all1 where "all1 = index_map m x"
    define d' where "d' = at_map all1 x"
    define all2 where "all2 = all1(our \<mapsto> d')"
    have o1: "others_ranked r our all1"
      using o unfolding all1_def others_ranked_def index_map_def
      by (auto split: option.splits)
    have o2: "others_ranked r our all2"
      using o1 unfolding all2_def others_ranked_def by auto
    have dp: "parent_name d' = Some p' \<Longrightarrow> (p', x) \<in> r" for p'
      using o ne unfolding d'_def all1_def others_ranked_def index_map_def at_map_def
      by (auto split: option.splits)
    have unf: "fill_loop g our m False =
        (case fst g d' of None \<Rightarrow> fill_loop g our all2 False
         | Some v \<Rightarrow> fill_loop g our (all2(our \<mapsto> snd g (Some v) d')) True)"
      by (subst fill_loop.simps) (simp add: px Let_def all1_def all2_def d'_def cong: option.case_cong)
    show "\<exists>y. fill_loop g our m False = Some y"
    proof (cases "fst g d'")
      case (Some v)
      then show ?thesis by (simp add: unf)
    next
      case None
      show ?thesis
      proof (cases "parent_name d'")
        case None': None
        then have "parent_name (at_map all2 our) = None" by (simp add: all2_def)
        from fill_loop_no_parent[OF this, of g] None show ?thesis by (simp add: unf)
      next
        case (Some p')
        have r1: "(p', x) \<in> r\<^sup>+" using dp[OF Some] by auto
        have r2: "(p', our) \<in> r\<^sup>+" using r1 xr by auto
        have "parent_name (at_map all2 our) = Some p'" using Some by (simp add: all2_def)
        with "1.IH"[OF r1] o2 r2 have "\<exists>y. fill_loop g our all2 False = Some y" by blast
        with None show ?thesis by (simp add: unf)
      qed
    qed
  qed
qed

lemma fill_in_returns:
  assumes wf: "wf (parent_rel (s ! a))"
  shows "\<exists>m'. fill_in_pipeline_state_field our a g s = Some (s[a := m'])"
proof -
  define m where "m = index_map (s ! a) our"
  have o: "others_ranked (parent_rel (s ! a)) our m"
    unfolding others_ranked_def m_def index_map_def parent_rel_def
    by (auto split: option.splits)
  have "\<exists>y. fill_loop g our m vf = Some y" for vf
  proof (cases vf)
    case True then show ?thesis by simp
  next
    case False
    show ?thesis
    proof (cases "parent_name (at_map m our)")
      case None
      from fill_loop_no_parent[OF this, of g] False show ?thesis by simp
    next
      case (Some x)
      then have "(x, our) \<in> parent_rel (s ! a)"
        unfolding m_def index_map_def at_map_def parent_rel_def
        by (auto split: option.splits)
      then have "(x, our) \<in> (parent_rel (s ! a))\<^sup>+" by auto
      with fill_loop_returns_aux[OF wf, of our x g] o Some
      have "\<exists>y. fill_loop g our m False = Some y" by blast
      with False show ?thesis by simp
    qed
  qed
  then show ?thesis
    unfolding fill_in_pipeline_state_field_def Let_def m_def by (metis option.simps(9))
qed

lemma fill_field_returns:
  assumes "a < length s" "wf (parent_rel (s ! a))"
  shows "fill_field our a g s = Some s"
proof -
  have "wf (parent_rel ((s @ [s ! a]) ! length s))" using assms by simp
  from fill_in_returns[OF this, of our g] obtain m' where
    "fill_in_pipeline_state_field our (length s) g (s @ [s ! a]) = Some ((s @ [s ! a])[length s := m'])"
    by blast
  then show ?thesis by (simp add: fill_field_def Let_def)
qed


lemma fill_field_unchanged: "fill_field n a p s = Some s' \<Longrightarrow> s' = s"
  by (auto simp: fill_field_def fill_in_pipeline_state_field_def Let_def)

lemma bind_fill_field:
  "Option.bind (fill_field n a p s) f = (if fill_field n a p s = None then None else f s)"
  by (cases "fill_field n a p s") (auto dest: fill_field_unchanged)

lemma resolve_item_None_acc:
  "(resolve_item dm k (s, ps) = None) = (resolve_item dm k (s, ps') = None)"
  unfolding resolve_item_def Let_def by (simp add: bind_fill_field)

lemma resolve_item_Some:
  "resolve_item dm k (s, ps) = Some st' \<Longrightarrow> st' = (s, ps @ [at_map (s ! dm) k])"
  unfolding resolve_item_def Let_def by (simp add: bind_fill_field split: if_splits)

lemma resolve_item_eq:
  "resolve_item dm k (s, ps) =
     (if item_returns dm k s then Some (s, ps @ [at_map (s ! dm) k]) else None)"
proof (cases "resolve_item dm k (s, ps)")
  case None
  then show ?thesis
    using resolve_item_None_acc[of dm k s ps "[]"] by (simp add: item_returns_def)
next
  case (Some st')
  then show ?thesis
    using resolve_item_None_acc[of dm k s ps "[]"] resolve_item_Some[OF Some]
    by (simp add: item_returns_def)
qed

lemma resolve_loop_eq:
  "resolve_loop dm ks (s, ps) =
     (if \<forall>k\<in>set ks. item_returns dm k s then Some (s, ps @ map (at_map (s ! dm)) ks) else None)"
  by (induction ks arbitrary: ps) (simp_all add: resolve_item_eq)

lemma parse_eq:
  "parse_pipelines_from_json order js =
     (if \<forall>k\<in>set order. item_returns 0 k [parse_definitions js]
      then Some (map (at_map (parse_definitions js)) order) else None)"
  by (simp add: parse_pipelines_from_json_def resolve_loop_eq Let_def)

lemma item_returns_wf:
  "dm < length s \<Longrightarrow> wf (parent_rel (s ! dm)) \<Longrightarrow> item_returns dm k s"
  by (simp add: item_returns_def resolve_item_def fill_field_returns)


lemma fill_field_diverges:
  assumes "dm < length s" "k \<in> S" "closed_unset g S (s ! dm)"
  shows "fill_field k dm g s = None"
proof -
  from assms(2,3) obtain d where d: "(s ! dm) k = Some d" "fst g d = None"
    unfolding closed_unset_def by blast
  have "fill_loop g k (s ! dm) False = None"
    using fill_loop_diverges[OF assms(2,3)] .
  with d assms(1) show ?thesis
    by (simp add: fill_field_def fill_in_pipeline_state_field_def Let_def)
qed

lemma item_diverges:
  assumes "dm < length s" "k \<in> S" "closed_unset ptr_pass S (s ! dm)"
  shows "\<not> item_returns dm k s"
proof -
  from assms(2,3) obtain d p where "(s ! dm) k = Some d" "parent_name d = Some p"
    unfolding closed_unset_def by blast
  then show ?thesis
    using fill_field_diverges[OF assms]
    by (simp add: item_returns_def resolve_item_def)
qed

lemma finite_dom_parse_definitions: "finite (dom (parse_definitions js))"
proof -
  have "finite (dom m) \<Longrightarrow> finite (dom (foldl insert_definition m js))" for m
    by (induction js arbitrary: m) (auto simp: insert_definition_def Let_def split: prod.splits)
  then show ?thesis by (simp add: parse_definitions_def)
qed

lemma finite_parent_rel: "finite (dom m) \<Longrightarrow> finite (parent_rel m)"
proof -
  assume f: "finite (dom m)"
  have "parent_rel m \<subseteq> (\<lambda>k. (the (parent_name (the (m k))), k)) ` dom m"
    by (auto simp: parent_rel_def image_iff)
  with f show ?thesis by (meson finite_imageI finite_subset)
qed

lemma wf_parent_rel_ranked:
  assumes "\<And>k d p. m k = Some d \<Longrightarrow> parent_name d = Some p \<Longrightarrow> rank p < (rank k :: nat)"
  shows "wf (parent_rel m)"
proof (rule wf_subset)
  show "wf (measure rank)" by simp
  show "parent_rel m \<subseteq> measure rank" using assms by (auto simp: parent_rel_def)
qed

lemma minimal_definitions:
  "parse_definitions minimal_pipelines =
     [''child'' \<mapsto> pipeline_data_ctor ''child'' (Some ''parent'') child_node,
      ''parent'' \<mapsto> pipeline_data_ctor ''parent'' None parent_node]"
  by (simp add: parse_definitions_def minimal_pipelines_def insert_definition_def split_key_def)

lemma ctor_simps [simp]:
  "name (pipeline_data_ctor n p j) = n"
  "parent_name (pipeline_data_ctor n p j) = p"
  "fragment_shader (pipeline_data_ctor n p j) = fragment_shader j"
  "vertex_shader (pipeline_data_ctor n p j) = vertex_shader j"
  "pass (pipeline_data_ctor n p j) = pass j"
  by (simp_all add: pipeline_data_ctor_def)

lemma default_pass: "pass default_pipeline = None"
  by (simp add: default_pipeline_def)

lemma wf_minimal: "wf (parent_rel (parse_definitions minimal_pipelines))"
  by (rule wf_parent_rel_ranked[where rank = "\<lambda>k. if k = ''child'' then 1 else 0"])
     (auto simp: minimal_definitions split: if_splits)

section \<open>Inheritance of fields (claim C1)\<close>

text \<open>
  Claim C1 has the emitted child of the two-pipeline document inherit \<open>fragment_shader\<close> from
  its parent and keep its own \<open>vertex_shader\<close>. The code emits both pipelines as they were
  parsed: the child keeps its \<open>vertex_shader\<close>, and its \<open>fragment_shader\<close> stays unset, since
  every \<open>fill_field\<close> works on a copy of the map.
\<close>

theorem child_emitted_without_inheritance:
  "parse_pipelines_from_json [''child'', ''parent''] minimal_pipelines =
     Some [pipeline_data_ctor ''child'' (Some ''parent'') child_node,
           pipeline_data_ctor ''parent'' None parent_node]
   \<and> vertex_shader (pipeline_data_ctor ''child'' (Some ''parent'') child_node) = Some ''v.glsl''
   \<and> fragment_shader (pipeline_data_ctor ''child'' (Some ''parent'') child_node) = None
   \<and> fragment_shader (pipeline_data_ctor ''parent'' None parent_node) = Some ''f.glsl''"
proof -
  have "item_returns 0 k [parse_definitions minimal_pipelines]" for k
    by (rule item_returns_wf) (simp_all add: wf_minimal)
  then have "parse_pipelines_from_json [''child'', ''parent''] minimal_pipelines =
     Some (map (at_map (parse_definitions minimal_pipelines)) [''child'', ''parent''])"
    by (simp add: parse_eq)
  then show ?thesis
    by (simp add: minimal_definitions child_node_def parent_node_def default_pipeline_def)
qed

section \<open>Termination of the resolver (claim C2)\<close>

text \<open>
  Against claim C2 as stated: on a pipeline that is its own parent, and on two pipelines
  that are each other's parent, \<open>parse_pipelines_from_json\<close> does not return (and so reports
  nothing).
\<close>

theorem cycle_never_returns:
  "parse_pipelines_from_json [''a''] [(''a:a'', default_pipeline)] = None
   \<and> parse_pipelines_from_json [''a'', ''b'']
        [(''a:b'', default_pipeline), (''b:a'', default_pipeline)] = None"
proof -
  have d1: "parse_definitions [(''a:a'', default_pipeline)] =
      [''a'' \<mapsto> pipeline_data_ctor ''a'' (Some ''a'') default_pipeline]"
    by (simp add: parse_definitions_def insert_definition_def split_key_def)
  have "closed_unset ptr_pass {''a''} (parse_definitions [(''a:a'', default_pipeline)])"
    by (simp add: closed_unset_def d1 ptr_pass_def default_pass)
  then have n1: "\<not> item_returns 0 ''a'' [parse_definitions [(''a:a'', default_pipeline)]]"
    by (intro item_diverges[where S = "{''a''}"]) simp_all
  have d2: "parse_definitions [(''a:b'', default_pipeline), (''b:a'', default_pipeline)] =
      [''a'' \<mapsto> pipeline_data_ctor ''a'' (Some ''b'') default_pipeline,
       ''b'' \<mapsto> pipeline_data_ctor ''b'' (Some ''a'') default_pipeline]"
    by (simp add: parse_definitions_def insert_definition_def split_key_def)
  have "closed_unset ptr_pass {''a'', ''b''}
          (parse_definitions [(''a:b'', default_pipeline), (''b:a'', default_pipeline)])"
    by (simp add: closed_unset_def d2 ptr_pass_def default_pass)
  then have n2: "\<not> item_returns 0 ''a''
          [parse_definitions [(''a:b'', default_pipeline), (''b:a'', default_pipeline)]]"
    by (intro item_diverges[where S = "{''a'', ''b''}"]) simp_all
  from n1 n2 show ?thesis by (simp add: parse_eq)
qed

text \<open>
  Claim C2, amended: on every pipelines document whose parent references have no cycle,
  \<open>parse_pipelines_from_json\<close> returns, whatever the iteration order of the map.
\<close>

theorem acyclic_parents_terminate:
  assumes "acyclic (parent_rel (parse_definitions pipelines_json))"
  shows "\<exists>pipelines. parse_pipelines_from_json order pipelines_json = Some pipelines"
proof -
  have "wf (parent_rel (parse_definitions pipelines_json))"
    using assms finite_parent_rel[OF finite_dom_parse_definitions]
    by (simp add: finite_acyclic_wf)
  then have "item_returns 0 k [parse_definitions pipelines_json]" for k
    by (intro item_returns_wf) simp_all
  then show ?thesis by (simp add: parse_eq)
qed

text \<open>
  The document of the first end-to-end scenario has no cycle, and parsing it returns.
\<close>

theorem acyclic_parents_terminate_witness:
  "acyclic (parent_rel (parse_definitions minimal_pipelines))
   \<and> (\<exists>pipelines. parse_pipelines_from_json [''child'', ''parent''] minimal_pipelines = Some pipelines)"
proof -
  have a: "acyclic (parent_rel (parse_definitions minimal_pipelines))"
    using wf_minimal by (rule wf_acyclic)
  from acyclic_parents_terminate[OF a] a show ?thesis by blast
qed

lemma fill_loop_dangling:
  assumes "m k = Some d" "parent_name d = Some p" "m p = None"
  shows "fill_loop g k m False =
     (case fst g default_pipeline of
        None \<Rightarrow> Some (m(p \<mapsto> default_pipeline, k \<mapsto> default_pipeline))
      | Some v \<Rightarrow> Some (m(p \<mapsto> default_pipeline, k \<mapsto> snd g (Some v) default_pipeline)))"
proof -
  have pk: "p \<noteq> k" using assms by auto
  have np: "parent_name (at_map (m(p \<mapsto> default_pipeline, k \<mapsto> default_pipeline)) k) = None"
    by simp
  show ?thesis
    apply (subst fill_loop.simps)
    using assms pk fill_loop_no_parent[OF np, of g]
    apply (simp add: Let_def cong: option.case_cong split: option.splits)
    done
qed

lemma fill_field_dangling:
  assumes "dm < length s" "dangling_parent (s ! dm) k"
  shows "fill_field k dm g s = Some s"
proof -
  from assms(2) obtain d p where d: "(s ! dm) k = Some d" "parent_name d = Some p" "(s ! dm) p = None"
    by (auto simp: dangling_parent_def split: option.splits)
  have "\<exists>y. fill_loop g k (s ! dm) vf = Some y" for vf
    by (cases vf) (simp_all add: fill_loop_dangling[OF d] split: option.splits)
  then obtain y where "fill_loop g k (s ! dm) (fst g d \<noteq> None) = Some y" by blast
  with d assms(1) show ?thesis
    by (simp add: fill_field_def fill_in_pipeline_state_field_def Let_def)
qed

lemma item_returns_dangling:
  "dm < length s \<Longrightarrow> dangling_parent (s ! dm) k \<Longrightarrow> item_returns dm k s"
  by (simp add: item_returns_def resolve_item_def fill_field_dangling)

section \<open>A parent that is not in the map (claim C3)\<close>

text \<open>
  Against claim C3 as stated: the document with the single entry \<open>child:missing\<close> is parsed
  without any failure, and the child is emitted as parsed.
\<close>

theorem dangling_parent_succeeds:
  "parse_pipelines_from_json [''child''] [(''child:missing'', child_node)] =
     Some [pipeline_data_ctor ''child'' (Some ''missing'') child_node]"
proof -
  have d: "parse_definitions [(''child:missing'', child_node)] =
      [''child'' \<mapsto> pipeline_data_ctor ''child'' (Some ''missing'') child_node]"
    by (simp add: parse_definitions_def insert_definition_def split_key_def)
  have "item_returns 0 ''child'' [parse_definitions [(''child:missing'', child_node)]]"
    by (rule item_returns_dangling) (simp_all add: d dangling_parent_def)
  then show ?thesis by (simp add: parse_eq) (simp add: d)
qed

lemma fill_in_dangling:
  assumes "dm < length s" "(s ! dm) k = Some d" "parent_name d = Some p" "(s ! dm) p = None"
  shows "\<exists>m'. fill_in_pipeline_state_field k dm g s = Some (s[dm := m'])
            \<and> m' p = (if fst g d = None then Some default_pipeline else None)"
proof -
  have pk: "p \<noteq> k" using assms by auto
  show ?thesis
  proof (cases "fst g d")
    case None
    obtain y where y: "fill_loop g k (s ! dm) False = Some y" "y p = Some default_pipeline"
      using pk fill_loop_dangling[OF assms(2,3,4), of g]
      by (cases "fst g default_pipeline") simp_all
    show ?thesis
      by (rule exI[of _ y]) (simp add: fill_in_pipeline_state_field_def Let_def assms None y)
  next
    case (Some v)
    show ?thesis
      by (rule exI[of _ "s ! dm"]) (simp add: fill_in_pipeline_state_field_def Let_def assms Some)
  qed
qed

text \<open>
  Claim C3, amended: for every pipelines document holding a pipeline whose parent name is
  not a key of the map, the resolution of that pipeline does not fail. The iteration of the
  second loop for it returns and pushes the pipeline as it was parsed, whatever else the
  map holds. Every filling of a field for it returns, with the missing parent treated as an
  empty definition: when the pipeline does not set the field, the parent's name is bound to
  a default-constructed pipeline in the map that is filled. And when the parent references
  of the document form no cycle, \<open>parse_pipelines_from_json\<close> returns, with that pipeline
  as it was parsed at each place where the iteration visits it.
\<close>

theorem dangling_parent_emitted:
  assumes "parse_definitions pipelines_json k = Some d"
    and "parent_name d = Some p"
    and "parse_definitions pipelines_json p = None"
  shows "resolve_item 0 k ([parse_definitions pipelines_json], pipelines) =
           Some ([parse_definitions pipelines_json], pipelines @ [d])
       \<and> (\<exists>m'. fill_in_pipeline_state_field k 0 ptr [parse_definitions pipelines_json] = Some [m']
              \<and> m' p = (if fst ptr d = None then Some default_pipeline else None))
       \<and> (acyclic (parent_rel (parse_definitions pipelines_json)) \<longrightarrow>
            (\<exists>emitted. parse_pipelines_from_json order pipelines_json = Some emitted
               \<and> length emitted = length order
               \<and> (\<forall>i<length order. order ! i = k \<longrightarrow> emitted ! i = d)))"
proof -
  let ?defs = "parse_definitions pipelines_json"
  have "dangling_parent ([?defs] ! 0) k" using assms by (simp add: dangling_parent_def)
  then have "item_returns 0 k [?defs]" by (intro item_returns_dangling) simp_all
  then have 1: "resolve_item 0 k ([?defs], pipelines) = Some ([?defs], pipelines @ [d])"
    using assms(1) by (simp add: resolve_item_eq)
  have 2: "\<exists>m'. fill_in_pipeline_state_field k 0 ptr [?defs] = Some [m']
              \<and> m' p = (if fst ptr d = None then Some default_pipeline else None)"
    using fill_in_dangling[of 0 "[?defs]" k d p ptr] assms by simp
  have 3: "\<exists>emitted. parse_pipelines_from_json order pipelines_json = Some emitted
               \<and> length emitted = length order
               \<and> (\<forall>i<length order. order ! i = k \<longrightarrow> emitted ! i = d)"
    if a: "acyclic (parent_rel ?defs)"
  proof -
    have "wf (parent_rel ?defs)"
      using a finite_parent_rel[OF finite_dom_parse_definitions]
      by (simp add: finite_acyclic_wf)
    then have "item_returns 0 k' [?defs]" for k'
      by (intro item_returns_wf) simp_all
    then have "parse_pipelines_from_json order pipelines_json = Some (map (at_map ?defs) order)"
      by (simp add: parse_eq)
    with assms(1) show ?thesis by simp
  qed
  from 1 2 3 show ?thesis by blast
qed

lemma dangling_definitions:
  "parse_definitions dangling_pipelines =
     [''child'' \<mapsto> pipeline_data_ctor ''child'' (Some ''missing'') child_node,
      ''parent'' \<mapsto> pipeline_data_ctor ''parent'' None parent_node]"
  by (simp add: parse_definitions_def dangling_pipelines_def insert_definition_def split_key_def)

lemma acyclic_dangling: "acyclic (parent_rel (parse_definitions dangling_pipelines))"
proof (rule wf_acyclic)
  show "wf (parent_rel (parse_definitions dangling_pipelines))"
    by (rule wf_parent_rel_ranked[where rank = "\<lambda>k. if k = ''child'' then 1 else 0"])
       (auto simp: dangling_definitions split: if_splits)
qed

text \<open>
  The document with \<open>child:missing\<close> and \<open>parent\<close>, iterated with \<open>parent\<close> first; the field
  filled is \<open>fragment_shader\<close>, which the child does not set.
\<close>

theorem dangling_parent_emitted_witness:
  "resolve_item 0 ''child'' ([parse_definitions dangling_pipelines], []) =
     Some ([parse_definitions dangling_pipelines],
           [pipeline_data_ctor ''child'' (Some ''missing'') child_node])
   \<and> (\<exists>m'. fill_in_pipeline_state_field ''child'' 0 ptr_fragment_shader
               [parse_definitions dangling_pipelines] = Some [m']
          \<and> m' ''missing'' = Some default_pipeline)
   \<and> (\<exists>emitted. parse_pipelines_from_json [''parent'', ''child''] dangling_pipelines = Some emitted
          \<and> length emitted = 2
          \<and> emitted ! 1 = pipeline_data_ctor ''child'' (Some ''missing'') child_node)"
proof -
  let ?d = "pipeline_data_ctor ''child'' (Some ''missing'') child_node"
  have h: "parse_definitions dangling_pipelines ''child'' = Some ?d"
    "parent_name ?d = Some ''missing''"
    "parse_definitions dangling_pipelines ''missing'' = None"
    by (simp_all add: dangling_definitions)
  have f: "fst ptr_fragment_shader ?d = None"
    by (simp add: ptr_fragment_shader_def child_node_def default_pipeline_def)
  from dangling_parent_emitted[OF h, of "[]" ptr_fragment_shader "[''parent'', ''child'']"]
    acyclic_dangling f
  show ?thesis by (simp add: less_Suc_eq numeral_2_eq_2)
qed

section \<open>The backing file of the Optifine defaults (claim C4)\<close>

text \<open>
  Claim C4 has \<open>get_default_optifine_passes\<close> read \<open>config/default/optifine_passes.json\<close>.
  On a disk where the two backing files differ, the code returns the Bedrock document from
  both accessors: the Optifine accessor opens \<open>config/default/bedrock_passes.json\<close>.
\<close>

theorem optifine_defaults_read_bedrock_file:
  "get_default_optifine_passes two_files JNull = ([], JArray [JString ''bedrock''])
   \<and> get_default_bedrock_passes two_files JNull = ([], JArray [JString ''bedrock''])
   \<and> two_files ''config/default/optifine_passes.json'' = Some (JArray [JString ''optifine''])"
  by (simp add: get_default_optifine_passes_def get_default_bedrock_passes_def two_files_def)

section \<open>Independence of the iteration order (claim C5)\<close>

text \<open>
  Claim C5: for every pipelines document and any two iteration orders of its map that are
  permutations of each other, \<open>parse_pipelines_from_json\<close> returns for both or for neither,
  and the two results hold the same pipelines (as multisets of whole definitions: name,
  parent and every field).
\<close>

theorem parse_permutation_invariant:
  assumes "mset order1 = mset order2"
  shows "map_option mset (parse_pipelines_from_json order1 pipelines_json) =
         map_option mset (parse_pipelines_from_json order2 pipelines_json)"
proof -
  from assms have "set order1 = set order2" by (rule mset_eq_setD)
  moreover from assms have "mset (map f order1) = mset (map f order2)" for f :: "string \<Rightarrow> pipeline_data"
    by (metis mset_map)
  ultimately show ?thesis by (simp add: parse_eq)
qed

text \<open>
  The two iteration orders of the map of the first end-to-end scenario.
\<close>

theorem parse_permutation_invariant_witness:
  "mset [''child'', ''parent''] = mset [''parent'', ''child'']
   \<and> map_option mset (parse_pipelines_from_json [''child'', ''parent''] minimal_pipelines) =
     map_option mset (parse_pipelines_from_json [''parent'', ''child''] minimal_pipelines)
   \<and> parse_pipelines_from_json [''parent'', ''child''] minimal_pipelines =
       Some [pipeline_data_ctor ''parent'' None parent_node,
             pipeline_data_ctor ''child'' (Some ''parent'') child_node]"
proof -
  have m: "mset [''child'', ''parent''] = mset [''parent'', ''child'']" by simp
  have "item_returns 0 k [parse_definitions minimal_pipelines]" for k
    by (rule item_returns_wf) (simp_all add: wf_minimal)
  then have "parse_pipelines_from_json [''parent'', ''child''] minimal_pipelines =
       Some [pipeline_data_ctor ''parent'' None parent_node,
             pipeline_data_ctor ''child'' (Some ''parent'') child_node]"
    by (simp add: parse_eq) (simp add: minimal_definitions)
  with parse_permutation_invariant[OF m, of minimal_pipelines] m show ?thesis by simp
qed

section \<open>The order within a bucket (claim C6)\<close>

lemma sorted_buckets_step:
  assumes "\<And>p b. buckets p = Some b \<Longrightarrow> sorted (map name b)"
  shows "(case pass d of
            None \<Rightarrow> buckets
          | Some p \<Rightarrow>
              buckets(p \<mapsto> insort_key name d (case buckets p of None \<Rightarrow> [] | Some b \<Rightarrow> b))) q
         = Some b \<Longrightarrow> sorted (map name b)"
  using assms by (auto simp: sorted_insort_key split: option.splits if_splits)

lemma sorted_buckets_foldl:
  assumes "\<And>p b. buckets p = Some b \<Longrightarrow> sorted (map name b)"
    and "foldl (\<lambda>buckets d.
              case pass d of
                None \<Rightarrow> buckets
              | Some p \<Rightarrow>
                  buckets(p \<mapsto> insort_key name d (case buckets p of None \<Rightarrow> [] | Some b \<Rightarrow> b)))
          buckets ps q = Some b"
  shows "sorted (map name b)"
  using assms
proof (induction ps arbitrary: buckets)
  case Nil
  then show ?case by simp
next
  case (Cons d ps)
  show ?case
    by (rule Cons.IH[OF _ Cons.prems(2)[simplified]]) (rule sorted_buckets_step[OF Cons.prems(1)])
qed

lemma sorted_bucket_by_pass: "bucket_by_pass ps q = Some b \<Longrightarrow> sorted (map name b)"
  using sorted_buckets_foldl[of Map.empty ps q b] by (simp add: bucket_by_pass_def)

text \<open>
  Claim C6: in the pack \<open>load_shaderpack\<close> returns, the pipelines stored under a pass are in
  the sorted order of their names.
\<close>

theorem buckets_sorted_by_name:
  assumes "load_shaderpack order dsk shaderpack_name = Some (Inr (lg, pack))"
    and "pipelines_by_pass pack p = Some bucket"
  shows "sorted (map name bucket)"
proof -
  have z: "\<not> is_zip_file dsk shaderpack_name"
    using assms(1) by (auto simp: load_shaderpack_def load_sources_from_zip_file_def)
  obtain by_pass where b: "load_pipelines_from_folder order
      (pipelines_document dsk (''shaderpacks/'' @ shaderpack_name)) = Some by_pass"
    using assms(1) z
    by (cases "load_pipelines_from_folder order
      (pipelines_document dsk (''shaderpacks/'' @ shaderpack_name))")
       (simp_all add: load_shaderpack_def Let_def)
  then obtain ps where ps: "by_pass = bucket_by_pass ps"
    by (auto simp: load_pipelines_from_folder_def)
  have "pipelines_by_pass pack = by_pass"
    using assms(1) z b by (simp add: load_shaderpack_def Let_def) auto
  with ps have "pipelines_by_pass pack = bucket_by_pass ps" by simp
  with assms(2) show ?thesis by (simp add: sorted_bucket_by_pass)
qed

lemma two_pipelines_parse:
  "parse_pipelines_from_json [''b'', ''a''] [(''b'', main_node), (''a'', main_node)] =
     Some [pipeline_data_ctor ''b'' None main_node, pipeline_data_ctor ''a'' None main_node]"
proof -
  have d: "parse_definitions [(''b'', main_node), (''a'', main_node)] =
      [''b'' \<mapsto> pipeline_data_ctor ''b'' None main_node,
       ''a'' \<mapsto> pipeline_data_ctor ''a'' None main_node]"
    by (simp add: parse_definitions_def insert_definition_def split_key_def)
  have "wf (parent_rel (parse_definitions [(''b'', main_node), (''a'', main_node)]))"
    by (rule wf_parent_rel_ranked[where rank = "\<lambda>k. 0"]) (auto simp: d split: if_splits)
  then have "item_returns 0 k [parse_definitions [(''b'', main_node), (''a'', main_node)]]" for k
    by (intro item_returns_wf) simp_all
  then show ?thesis by (simp add: parse_eq) (simp add: d)
qed

lemma two_pipelines_buckets:
  "load_pipelines_from_folder [''b'', ''a''] [(''b'', main_node), (''a'', main_node)] =
     Some [''main'' \<mapsto> [pipeline_data_ctor ''a'' None main_node, pipeline_data_ctor ''b'' None main_node]]"
proof -
  have p: "pass main_node = Some ''main''"
    by (simp add: main_node_def)
  show ?thesis
    by (simp add: load_pipelines_from_folder_def two_pipelines_parse bucket_by_pass_def p)
qed

text \<open>
  A folder whose map is iterated with \<open>b\<close> before \<open>a\<close>: the bucket of \<open>main\<close> has \<open>a\<close> first.
\<close>

theorem buckets_sorted_by_name_witness:
  "\<exists>lg pack bucket.
     load_shaderpack [''b'', ''a''] two_pipelines_disk ''pack'' = Some (Inr (lg, pack))
     \<and> pipelines_by_pass pack ''main'' = Some bucket
     \<and> map name bucket = [''a'', ''b'']
     \<and> sorted (map name bucket)"
proof -
  let ?bucket = "[pipeline_data_ctor ''a'' None main_node, pipeline_data_ctor ''b'' None main_node]"
  obtain lg pack where l: "load_shaderpack [''b'', ''a''] two_pipelines_disk ''pack'' = Some (Inr (lg, pack))"
    and p: "pipelines_by_pass pack ''main'' = Some ?bucket"
    by (simp add: load_shaderpack_def two_pipelines_disk_def two_pipelines_buckets Let_def)
  from buckets_sorted_by_name[OF l p] l p show ?thesis by simp
qed

section \<open>Splitting a key (claim C7)\<close>

lemma find_char_None: "(find_char c k = None) = (c \<notin> set k)"
  by (induction k) auto

lemma find_char_first: "c \<notin> set n \<Longrightarrow> find_char c (n @ c # p) = Some (length n)"
  by (induction n) auto

text \<open>
  Claim C7: a key with no colon is the pipeline's name, and the parent is unset; a key
  \<open>n:p\<close> where \<open>n\<close> has no colon (so the colon is the first one) has the name \<open>n\<close> and the
  parent \<open>p\<close>; and the definition is stored under that name, with that name and parent.
\<close>

theorem key_split_on_first_colon:
  "(CHR '':'' \<notin> set k \<longrightarrow> split_key k = (k, None))
   \<and> (\<forall>n p. k = n @ CHR '':'' # p \<and> CHR '':'' \<notin> set n \<longrightarrow> split_key k = (n, Some p))
   \<and> insert_definition definition_map (k, json_node) =
       definition_map(fst (split_key k) \<mapsto>
         json_node\<lparr> name := fst (split_key k), parent_name := snd (split_key k) \<rparr>)"
proof -
  have 1: "CHR '':'' \<notin> set k \<longrightarrow> split_key k = (k, None)"
    by (simp add: split_key_def find_char_None[symmetric])
  have 2: "\<forall>n p. k = n @ CHR '':'' # p \<and> CHR '':'' \<notin> set n \<longrightarrow> split_key k = (n, Some p)"
    by (auto simp: split_key_def find_char_first)
  have 3: "insert_definition definition_map (k, json_node) =
       definition_map(fst (split_key k) \<mapsto>
         json_node\<lparr> name := fst (split_key k), parent_name := snd (split_key k) \<rparr>)"
    by (simp add: insert_definition_def pipeline_data_ctor_def Let_def split: prod.splits)
  from 1 2 3 show ?thesis by blast
qed

text \<open>
  Three keys: no colon, one colon, two colons.
\<close>

theorem key_split_on_first_colon_witness:
  "split_key ''parent'' = (''parent'', None)
   \<and> split_key ''child:parent'' = (''child'', Some ''parent'')
   \<and> split_key ''a:b:c'' = (''a'', Some ''b:c'')"
proof -
  have a: "''child:parent'' = ''child'' @ CHR '':'' # ''parent'' \<and> CHR '':'' \<notin> set ''child''"
    by simp
  have b: "''a:b:c'' = ''a'' @ CHR '':'' # ''b:c'' \<and> CHR '':'' \<notin> set ''a''"
    by simp
  have c: "CHR '':'' \<notin> set ''parent''" by simp
  from key_split_on_first_colon[of "''parent''"] c have 1: "split_key ''parent'' = (''parent'', None)"
    by blast
  from key_split_on_first_colon[of "''child:parent''"] a
  have 2: "split_key ''child:parent'' = (''child'', Some ''parent'')" by blast
  from key_split_on_first_colon[of "''a:b:c''"] b
  have 3: "split_key ''a:b:c'' = (''a'', Some ''b:c'')" by blast
  from 1 2 3 show ?thesis by blast
qed

section \<open>A pack with an empty part (claim C8)\<close>

text \<open>
  Against claim C8 as stated: the folder has no passes, and the pack returned is not
  empty. It holds the folder's pipelines and its material, and the error is logged.
\<close>

theorem empty_passes_pack_not_empty:
  "\<exists>lg pack.
     load_shaderpack [''b'', ''a''] two_pipelines_disk ''pack'' = Some (Inr (lg, pack))
     \<and> passes pack = Map.empty
     \<and> (ERROR, no_passes_message ''pack'') \<in> set lg
     \<and> materials pack ''m'' = Some ()
     \<and> pipelines_by_pass pack ''main'' \<noteq> None"
  by (simp add: load_shaderpack_def two_pipelines_disk_def two_pipelines_buckets Let_def)

text \<open>
  Claim C8, amended: when the name is not a zip file and the pipelines are loaded,
  \<open>load_shaderpack\<close> logs an error for each of the passes, the pipelines and the materials
  that is empty, and returns the pack as loaded: each of the four mappings is what its
  loader returned.
\<close>

theorem load_shaderpack_returns_pack_as_loaded:
  assumes "\<not> is_zip_file dsk shaderpack_name"
    and "load_pipelines_from_folder order
           (pipelines_document dsk (''shaderpacks/'' @ shaderpack_name)) = Some by_pass"
  shows "load_shaderpack order dsk shaderpack_name =
     Some (Inr
       ((if load_passes_from_folder dsk (''shaderpacks/'' @ shaderpack_name) = Map.empty
         then [(ERROR, no_passes_message shaderpack_name)] else []) @
        (if by_pass = Map.empty
         then [(ERROR, no_pipelines_message shaderpack_name)] else []) @
        (if load_materials_from_folder dsk (''shaderpacks/'' @ shaderpack_name) = Map.empty
         then [(ERROR, no_materials_message shaderpack_name)] else []),
        \<lparr> pipelines_by_pass = by_pass,
          passes = load_passes_from_folder dsk (''shaderpacks/'' @ shaderpack_name),
          dynamic_textures =
            load_texture_definitions_from_folder dsk (''shaderpacks/'' @ shaderpack_name),
          materials = load_materials_from_folder dsk (''shaderpacks/'' @ shaderpack_name) \<rparr>))"
  using assms by (simp add: load_shaderpack_def Let_def empty_shaderpack_def)

text \<open>
  The folder with no passes: one error, and the pipelines, textures and materials of the
  folder in the pack.
\<close>

theorem load_shaderpack_returns_pack_as_loaded_witness:
  "load_shaderpack [''b'', ''a''] two_pipelines_disk ''pack'' =
     Some (Inr
       ([(ERROR, no_passes_message ''pack'')],
        \<lparr> pipelines_by_pass =
            [''main'' \<mapsto> [pipeline_data_ctor ''a'' None main_node,
                           pipeline_data_ctor ''b'' None main_node]],
          passes = Map.empty,
          dynamic_textures = Map.empty,
          materials = [''m'' \<mapsto> ()] \<rparr>))"
proof -
  have z: "\<not> is_zip_file two_pipelines_disk ''pack''"
    by (simp add: two_pipelines_disk_def)
  have l: "load_pipelines_from_folder [''b'', ''a'']
           (pipelines_document two_pipelines_disk (''shaderpacks/'' @ ''pack'')) =
         Some [''main'' \<mapsto> [pipeline_data_ctor ''a'' None main_node,
                             pipeline_data_ctor ''b'' None main_node]]"
    by (simp add: two_pipelines_disk_def two_pipelines_buckets)
  show ?thesis
    using load_shaderpack_returns_pack_as_loaded[OF z l]
    by (simp add: two_pipelines_disk_def)
qed

section \<open>The caller's map (claim C9)\<close>

text \<open>
  Claim C9: a call of \<open>fill_field\<close> that returns leaves every map object of the caller as it
  was, the argument among them, whatever the name and the member pointer; and so the
  second loop of \<open>parse_pipelines_from_json\<close>, when it returns, leaves the store as it found
  it: \<open>definition_map\<close> is still the map that was parsed, and the pipelines pushed are the
  definitions stored in it.
\<close>

theorem fill_field_keeps_caller_map:
  "(fill_field name' arg ptr s = Some s' \<longrightarrow> s' = s)
   \<and> (resolve_loop definition_map order (s, pipelines) = Some (t, pipelines') \<longrightarrow>
        t = s \<and> pipelines' = pipelines @ map (at_map (s ! definition_map)) order)"
proof -
  have 1: "fill_field name' arg ptr s = Some s' \<longrightarrow> s' = s"
    by (auto dest: fill_field_unchanged)
  have 2: "resolve_loop definition_map order (s, pipelines) = Some (t, pipelines') \<longrightarrow>
        t = s \<and> pipelines' = pipelines @ map (at_map (s ! definition_map)) order"
    by (auto simp: resolve_loop_eq split: if_splits)
  from 1 2 show ?thesis by blast
qed

text \<open>
  On the map of the first end-to-end scenario, the call that should fill the child's
  \<open>fragment_shader\<close> returns and the map is as before; so does the whole loop.
\<close>

theorem fill_field_keeps_caller_map_witness:
  "fill_field ''child'' 0 ptr_fragment_shader [parse_definitions minimal_pipelines] =
     Some [parse_definitions minimal_pipelines]
   \<and> map_option fst
        (resolve_loop 0 [''child'', ''parent''] ([parse_definitions minimal_pipelines], [])) =
     Some [parse_definitions minimal_pipelines]"
proof -
  let ?s = "[parse_definitions minimal_pipelines]"
  have "fill_field ''child'' 0 ptr_fragment_shader ?s \<noteq> None"
    by (simp add: fill_field_returns wf_minimal)
  then obtain s' where f: "fill_field ''child'' 0 ptr_fragment_shader ?s = Some s'"
    by blast
  have "item_returns 0 k ?s" for k
    by (rule item_returns_wf) (simp_all add: wf_minimal)
  then have "resolve_loop 0 [''child'', ''parent''] (?s, []) \<noteq> None"
    by (simp add: resolve_loop_eq)
  then obtain t ps where l: "resolve_loop 0 [''child'', ''parent''] (?s, []) = Some (t, ps)"
    by (cases "resolve_loop 0 [''child'', ''parent''] (?s, [])") auto
  from fill_field_keeps_caller_map[of "''child''" 0 ptr_fragment_shader ?s s' 0
      "[''child'', ''parent'']" "[]" t ps] f l
  show ?thesis by simp
qed

section \<open>Textures that fail to parse (claim C10)\<close>

lemma map_filter_Cons:
  "List.map_filter f (x # xs) = (case f x of None \<Rightarrow> List.map_filter f xs | Some y \<Rightarrow> y # List.map_filter f xs)"
  by (simp add: List.map_filter_def split: option.splits)

lemma map_filter_Nil: "List.map_filter f [] = []"
  by (simp add: List.map_filter_def)

lemma parse_textures_foldl:
  "foldl (parse_texture ctor nm) (lg, m) js =
     (lg @ map (\<lambda>what. (ERROR, ''Could not parse texture description. Reason: '' @ what))
             (failures ctor js),
      m ++ map_of (rev (map (\<lambda>t. (nm t, t)) (constructed ctor js))))"
proof (induction js arbitrary: lg m)
  case Nil
  then show ?case by (simp add: failures_def constructed_def map_filter_Nil)
next
  case (Cons j js)
  show ?case
  proof (cases "ctor j")
    case (Inl what)
    have step: "parse_texture ctor nm (lg, m) j =
        (lg @ [(ERROR, ''Could not parse texture description. Reason: '' @ what)], m)"
      by (simp add: parse_texture_def Inl)
    have fl: "failures ctor (j # js) = what # failures ctor js"
      "constructed ctor (j # js) = constructed ctor js"
      by (simp_all add: failures_def constructed_def map_filter_Cons Inl)
    show ?thesis
      unfolding foldl.simps step Cons.IH fl by simp
  next
    case (Inr t)
    have step: "parse_texture ctor nm (lg, m) j = (lg, m(nm t \<mapsto> t))"
      by (simp add: parse_texture_def Inr)
    have fl: "failures ctor (j # js) = failures ctor js"
      "constructed ctor (j # js) = t # constructed ctor js"
      by (simp_all add: failures_def constructed_def map_filter_Cons Inr)
    have "m(nm t \<mapsto> t) ++ map_of (rev (map (\<lambda>t. (nm t, t)) (constructed ctor js))) =
          m ++ map_of (rev (map (\<lambda>t. (nm t, t)) (constructed ctor js)) @ [(nm t, t)])"
      by (rule ext) (simp add: map_add_def split: option.splits)
    then show ?thesis
      unfolding foldl.simps step Cons.IH fl by simp
  qed
qed

text \<open>
  Claim C10: for every array, the textures returned are exactly the ones whose
  construction succeeds, each stored under its name (of two with one name, the later one),
  whatever entries fail before, between or after them; and each failing entry leaves one
  error line, with its reason.
\<close>

theorem failed_textures_are_skipped:
  "snd (parse_textures_from_json texture_resource texture_name json) =
     map_of (rev (map (\<lambda>t. (texture_name t, t)) (constructed texture_resource json)))
   \<and> dom (snd (parse_textures_from_json texture_resource texture_name json)) =
       texture_name ` set (constructed texture_resource json)
   \<and> ran (snd (parse_textures_from_json texture_resource texture_name json)) \<subseteq>
       set (constructed texture_resource json)
   \<and> fst (parse_textures_from_json texture_resource texture_name json) =
       map (\<lambda>what. (ERROR, ''Could not parse texture description. Reason: '' @ what))
         (failures texture_resource json)"
proof -
  let ?kvs = "rev (map (\<lambda>t. (texture_name t, t)) (constructed texture_resource json))"
  have e: "parse_textures_from_json texture_resource texture_name json =
     (map (\<lambda>what. (ERROR, ''Could not parse texture description. Reason: '' @ what))
         (failures texture_resource json), map_of ?kvs)"
    by (simp add: parse_textures_from_json_def parse_textures_foldl)
  have d: "dom (map_of ?kvs) = texture_name ` set (constructed texture_resource json)"
    by (simp add: dom_map_of_conv_image_fst image_image)
  have r: "ran (map_of ?kvs) \<subseteq> set (constructed texture_resource json)"
  proof
    fix t assume "t \<in> ran (map_of ?kvs)"
    then obtain k where "map_of ?kvs k = Some t" by (auto simp: ran_def)
    then have "(k, t) \<in> set ?kvs" by (rule map_of_SomeD)
    then show "t \<in> set (constructed texture_resource json)" by auto
  qed
  from e d r show ?thesis by simp
qed

end
